theory Spec2Isabelle
  imports Complex_Main "HOL-Library.Word" "HOL-Library.Sublist"
begin

section \<open>Data model\<close>

text \<open>
  A JavaScript string is a sequence of UTF-16 code units. The response labels of the
  summary parser are Hebrew, so the 8-bit characters of HOL do not hold them; every
  string of the model is a list of 16-bit words.
\<close>

type_synonym js_string = "16 word list"

text \<open>\<^verbatim>\<open>TopicTag\<close> and \<^verbatim>\<open>Question & { id: string }\<close> (models/Question, used by
  questionService.ts and RetrievedQuestion.ts).\<close>

record TopicTag =
  name :: js_string
  slug :: js_string

record Question =
  idQ :: js_string
  frontendQuestionId :: js_string
  title :: js_string
  titleSlug :: js_string
  difficulty :: js_string
  topicTags :: "TopicTag list"

text \<open>\<^verbatim>\<open>AISummary\<close> and \<^verbatim>\<open>RetrievedQuestion\<close> (models/RetrievedQuestion.ts). The optional
  field \<^verbatim>\<open>aiSummary?\<close> is an option; the field \<^verbatim>\<open>id?\<close> is never written by the client, the
  document id lives in the collection.\<close>

record AISummary =
  solution :: js_string
  timeComplexity :: js_string
  spaceComplexity :: js_string

record RetrievedQuestion =
  questionId :: js_string
  frontendQuestionId :: js_string
  title :: js_string
  titleSlug :: js_string
  difficulty :: js_string
  topicTags :: "TopicTag list"
  sentDate :: js_string
  isChosen :: bool
  aiSummary :: "AISummary option"

text \<open>
  A Firestore collection: the documents in the order a snapshot lists them, each with its
  document id and its data. Document ids are keys of the collection.
\<close>

type_synonym 'a collection = "(js_string \<times> 'a) list"

section \<open>models/RetrievedQuestion.ts\<close>

text \<open>\<^verbatim>\<open>createRetrievedQuestion\<close>; the first argument is the value of
  \<^verbatim>\<open>new Date().toISOString()\<close> at the call.\<close>

definition createRetrievedQuestion :: "js_string \<Rightarrow> Question \<Rightarrow> RetrievedQuestion" where
  "createRetrievedQuestion nowIso question =
     \<lparr> questionId = idQ question,
       frontendQuestionId = Question.frontendQuestionId question,
       title = Question.title question,
       titleSlug = Question.titleSlug question,
       difficulty = Question.difficulty question,
       topicTags = Question.topicTags question,
       sentDate = nowIso,
       isChosen = True,
       aiSummary = None \<rparr>"

section \<open>services/questionService.ts\<close>

subsection \<open>The document store\<close>

text \<open>
  Every store call of the service is awaited inside a \<^verbatim>\<open>try\<close> block, and may reject. Each
  operation of the model takes the outcome of its store calls as arguments: a flag that
  is \<open>False\<close> when the call rejects, and for \<^verbatim>\<open>addDoc\<close> the generated document id together
  with the place of the new document in later snapshots (Firestore lists documents by
  id, and the generated id is random).
\<close>

definition convertDocToQuestion :: "js_string \<times> Question \<Rightarrow> Question" where
  "convertDocToQuestion d = (snd d)\<lparr> idQ := fst d \<rparr>"

definition addDoc :: "'a collection \<Rightarrow> js_string \<Rightarrow> nat \<Rightarrow> 'a \<Rightarrow> 'a collection" where
  "addDoc col newId pos v = take pos col @ (newId, v) # drop pos col"

definition deleteDoc :: "'a collection \<Rightarrow> js_string \<Rightarrow> 'a collection" where
  "deleteDoc col docId = filter (\<lambda>d. fst d \<noteq> docId) col"

text \<open>A JavaScript string is truthy when it is not empty; \<^verbatim>\<open>undefined\<close> is falsy.\<close>

definition truthy :: "js_string option \<Rightarrow> bool" where
  "truthy v = (case v of None \<Rightarrow> False | Some s \<Rightarrow> s \<noteq> [])"

text \<open>Array indexing: out of range, JavaScript gives \<^verbatim>\<open>undefined\<close>.\<close>

definition js_index :: "'a list \<Rightarrow> int \<Rightarrow> 'a option" where
  "js_index xs i = (if 0 \<le> i \<and> i < int (length xs) then Some (xs ! nat i) else None)"

subsection \<open>isQuestionAlreadySent\<close>

record sent_check =
  isSent :: bool
  retrievedDocId :: "js_string option"

definition isQuestionAlreadySent ::
  "bool \<Rightarrow> RetrievedQuestion collection \<Rightarrow> js_string \<Rightarrow> sent_check" where
  "isQuestionAlreadySent queryOk retrievedQuestionsCol qId =
     (if \<not> queryOk then \<lparr> isSent = False, retrievedDocId = None \<rparr>
      else
        let snapshot = filter (\<lambda>d. questionId (snd d) = qId) retrievedQuestionsCol in
        (case snapshot of
           d # _ \<Rightarrow> \<lparr> isSent = True, retrievedDocId = Some (fst d) \<rparr>
         | [] \<Rightarrow> \<lparr> isSent = False, retrievedDocId = None \<rparr>))"

subsection \<open>getAISummary\<close>

text \<open>
  \<open>functionsInit\<close> is \<open>False\<close> when the \<^verbatim>\<open>functions\<close> client of firebase/config.ts is
  \<^verbatim>\<open>null\<close>; \<open>callResult\<close> is \<open>None\<close> when the callable \<^verbatim>\<open>getQuestionSummary\<close> throws and the
  returned \<^verbatim>\<open>result.data\<close> otherwise.
\<close>

definition getAISummary :: "bool \<Rightarrow> AISummary option \<Rightarrow> Question \<Rightarrow> AISummary option" where
  "getAISummary functionsInit callResult question =
     (if \<not> functionsInit then None
      else case callResult of None \<Rightarrow> None | Some data \<Rightarrow> Some data)"

subsection \<open>markQuestionAsSent, unsendQuestion\<close>

text \<open>
  \<open>addResult\<close> is \<open>None\<close> when \<^verbatim>\<open>addDoc\<close> rejects, and the new document id with its
  place in the collection otherwise. The result is the returned value
  (\<open>None\<close> for \<^verbatim>\<open>null\<close>) and the collection after the call.
\<close>

definition markQuestionAsSent ::
  "bool \<Rightarrow> js_string \<Rightarrow> bool \<Rightarrow> AISummary option \<Rightarrow> (js_string \<times> nat) option \<Rightarrow>
   RetrievedQuestion collection \<Rightarrow> Question \<Rightarrow>
   js_string option \<times> RetrievedQuestion collection" where
  "markQuestionAsSent queryOk nowIso functionsInit callResult addResult
       retrievedQuestionsCol question =
     (let chk = isQuestionAlreadySent queryOk retrievedQuestionsCol (idQ question) in
      if isSent chk \<and> truthy (retrievedDocId chk)
      then (retrievedDocId chk, retrievedQuestionsCol)
      else
        let retrievedQuestion = createRetrievedQuestion nowIso question;
            retrievedQuestion' =
              (case getAISummary functionsInit callResult question of
                 Some s \<Rightarrow> retrievedQuestion\<lparr> aiSummary := Some s \<rparr>
               | None \<Rightarrow> retrievedQuestion) in
        (case addResult of
           None \<Rightarrow> (None, retrievedQuestionsCol)
         | Some (newId, pos) \<Rightarrow>
             (Some newId, addDoc retrievedQuestionsCol newId pos retrievedQuestion')))"

definition unsendQuestion ::
  "bool \<Rightarrow> bool \<Rightarrow> RetrievedQuestion collection \<Rightarrow> js_string \<Rightarrow>
   bool \<times> RetrievedQuestion collection" where
  "unsendQuestion queryOk deleteOk retrievedQuestionsCol qId =
     (let chk = isQuestionAlreadySent queryOk retrievedQuestionsCol qId in
      if isSent chk \<and> truthy (retrievedDocId chk)
      then (case retrievedDocId chk of
              Some docId \<Rightarrow>
                if deleteOk then (True, deleteDoc retrievedQuestionsCol docId)
                else (False, retrievedQuestionsCol)
            | None \<Rightarrow> (False, retrievedQuestionsCol))
      else (False, retrievedQuestionsCol))"

subsection \<open>getRandomUnsentQuestionByDifficulty\<close>

text \<open>
  \<open>questionsOk\<close> and \<open>retrievedOk\<close> are the outcomes of the two \<^verbatim>\<open>getDocs\<close> calls, and
  \<open>random\<close> is the value of \<^verbatim>\<open>Math.random()\<close>, a number in \<open>[0, 1)\<close>; one is drawn on
  each path. The product and its floor are taken over the reals. An index out of range
  would give \<^verbatim>\<open>undefined\<close>, which the model returns as \<open>None\<close>.
\<close>

definition getRandomUnsentQuestionByDifficulty ::
  "bool \<Rightarrow> bool \<Rightarrow> real \<Rightarrow> Question collection \<Rightarrow> RetrievedQuestion collection \<Rightarrow>
   js_string \<Rightarrow> Question option" where
  "getRandomUnsentQuestionByDifficulty questionsOk retrievedOk random questionsCol
       retrievedQuestionsCol difficulty' =
     (if \<not> questionsOk then None
      else
        let questionsByDifficulty =
              map convertDocToQuestion
                (filter (\<lambda>d. Question.difficulty (snd d) = difficulty') questionsCol) in
        if length questionsByDifficulty = 0 then None
        else if \<not> retrievedOk then None
        else
          let sentQuestionIds = map (\<lambda>d. questionId (snd d)) retrievedQuestionsCol;
              availableQuestions =
                filter (\<lambda>question. idQ question \<notin> set sentQuestionIds)
                  questionsByDifficulty in
          if length availableQuestions = 0
          then js_index questionsByDifficulty
                 \<lfloor>random * real (length questionsByDifficulty)\<rfloor>
          else js_index availableQuestions \<lfloor>random * real (length availableQuestions)\<rfloor>)"

section \<open>JavaScript regular expressions, as far as the parser uses them\<close>

text \<open>
  The patterns of the parser are built from literals, a quantified character class
  (\<^verbatim>\<open>\s*\<close>, \<^verbatim>\<open>.+?\<close>, \<^verbatim>\<open>[^)]+\<close>), sequence, alternative, one capturing group, a look-ahead
  and the end anchor (\<^verbatim>\<open>$\<close> without the \<^verbatim>\<open>m\<close> flag). \<open>Rep p n greedy\<close> is the class \<open>p\<close> repeated
  at least \<open>n\<close> times, greedy or lazy.
\<close>

datatype regex =
    Lit js_string
  | Rep "16 word \<Rightarrow> bool" nat bool
  | Seq regex regex
  | Alt regex regex
  | Group regex
  | Lookahead regex
  | Eof

text \<open>
  A backtracking matcher in continuation-passing style, as ECMA-262 defines pattern
  matching: the continuation is the rest of the pattern, \<open>None\<close> is failure, and a failed
  continuation makes the quantifier try its next choice. A greedy quantifier tries the
  longer repetition first, a lazy one the shorter.
\<close>

fun rep_greedy :: "(16 word \<Rightarrow> bool) \<Rightarrow> nat \<Rightarrow> js_string \<Rightarrow> (js_string \<Rightarrow> 'r option) \<Rightarrow> 'r option" where
  "rep_greedy p n [] k = (if n = 0 then k [] else None)"
| "rep_greedy p n (c # cs) k =
     (if p c
      then (case rep_greedy p (n - 1) cs k of
              Some r \<Rightarrow> Some r
            | None \<Rightarrow> if n = 0 then k (c # cs) else None)
      else if n = 0 then k (c # cs) else None)"

fun rep_lazy :: "(16 word \<Rightarrow> bool) \<Rightarrow> nat \<Rightarrow> js_string \<Rightarrow> (js_string \<Rightarrow> 'r option) \<Rightarrow> 'r option" where
  "rep_lazy p n [] k = (if n = 0 then k [] else None)"
| "rep_lazy p n (c # cs) k =
     (if n = 0
      then (case k (c # cs) of
              Some r \<Rightarrow> Some r
            | None \<Rightarrow> if p c then rep_lazy p 0 cs k else None)
      else if p c then rep_lazy p (n - 1) cs k else None)"

type_synonym captures = "js_string option"

text \<open>
  \<open>rmatch r s c k\<close> matches \<open>r\<close> at the start of the remaining input \<open>s\<close> with the capture
  \<open>c\<close> of group 1 so far. A look-ahead consumes nothing and does not backtrack into its
  body once the body has matched.
\<close>

fun rmatch :: "regex \<Rightarrow> js_string \<Rightarrow> captures \<Rightarrow> (js_string \<Rightarrow> captures \<Rightarrow> captures option) \<Rightarrow>
    captures option" where
  "rmatch (Lit l) s c k = (if prefix l s then k (drop (length l) s) c else None)"
| "rmatch (Rep p n greedy) s c k =
     (if greedy then rep_greedy p n s (\<lambda>s'. k s' c) else rep_lazy p n s (\<lambda>s'. k s' c))"
| "rmatch (Seq a b) s c k = rmatch a s c (\<lambda>s' c'. rmatch b s' c' k)"
| "rmatch (Alt a b) s c k =
     (case rmatch a s c k of Some r \<Rightarrow> Some r | None \<Rightarrow> rmatch b s c k)"
| "rmatch (Group a) s c k =
     rmatch a s c (\<lambda>s' c'. k s' (Some (take (length s - length s') s)))"
| "rmatch (Lookahead a) s c k =
     (case rmatch a s c (\<lambda>s' c'. Some c') of Some c' \<Rightarrow> k s c' | None \<Rightarrow> None)"
| "rmatch Eof s c k = (if s = [] then k s c else None)"

text \<open>
  \<^verbatim>\<open>String.prototype.match\<close> with a pattern without the \<^verbatim>\<open>g\<close> flag: the match at the leftmost
  start position, \<open>None\<close> for \<^verbatim>\<open>null\<close>. \<open>group1\<close> is \<^verbatim>\<open>m?.[1]\<close>.
\<close>

fun js_match :: "regex \<Rightarrow> js_string \<Rightarrow> captures option" where
  "js_match r [] = rmatch r [] None (\<lambda>s' c'. Some c')"
| "js_match r (x # xs) =
     (case rmatch r (x # xs) None (\<lambda>s' c'. Some c') of
        Some c' \<Rightarrow> Some c'
      | None \<Rightarrow> js_match r xs)"

definition group1 :: "captures option \<Rightarrow> js_string option" where
  "group1 m = (case m of None \<Rightarrow> None | Some c \<Rightarrow> c)"

text \<open>
  The white space of \<^verbatim>\<open>\s\<close> and of \<^verbatim>\<open>String.prototype.trim\<close>: the code units of WhiteSpace and
  LineTerminator.
\<close>

definition isWhiteSpace :: "16 word \<Rightarrow> bool" where
  "isWhiteSpace c \<longleftrightarrow>
     c = 0x09 \<or> c = 0x0A \<or> c = 0x0B \<or> c = 0x0C \<or> c = 0x0D \<or> c = 0x20 \<or> c = 0xA0 \<or>
     c = 0x1680 \<or> (0x2000 \<le> c \<and> c \<le> 0x200A) \<or> c = 0x2028 \<or> c = 0x2029 \<or>
     c = 0x202F \<or> c = 0x205F \<or> c = 0x3000 \<or> c = 0xFEFF"

definition trim :: "js_string \<Rightarrow> js_string" where
  "trim s = rev (dropWhile isWhiteSpace (rev (dropWhile isWhiteSpace s)))"

definition anyChar :: "16 word \<Rightarrow> bool" where
  "anyChar c = True"

definition notCloseParen :: "16 word \<Rightarrow> bool" where
  "notCloseParen c \<longleftrightarrow> c \<noteq> 0x29"

text \<open>\<^verbatim>\<open>a || b\<close> on an optional string: the empty string and \<^verbatim>\<open>undefined\<close> are falsy.\<close>

definition js_or :: "js_string option \<Rightarrow> js_string \<Rightarrow> js_string" where
  "js_or v d = (case v of None \<Rightarrow> d | Some s \<Rightarrow> if s \<noteq> [] then s else d)"

section \<open>functions/src/utils.ts\<close>

subsection \<open>parseAIResponse\<close>

text \<open>
  The Hebrew labels of the response format, as code units: the solution label with its
  colon, and the words of the time and the space label.
\<close>

definition solutionLabel :: js_string where
  "solutionLabel = [0x05E4, 0x05EA, 0x05E8, 0x05D5, 0x05DF, 0x3A]"

definition timeWord :: js_string where
  "timeWord = [0x05D6, 0x05DE, 0x05DF]"

definition spaceWord :: js_string where
  "spaceWord = [0x05DE, 0x05E7, 0x05D5, 0x05DD]"

text \<open>
  \<^verbatim>\<open>/<solution>:\s*(.+?)(?=\n(?:<time>|<space>):|$)/s\<close>, and
  \<^verbatim>\<open>/<word>:\s*(O\([^)]+\))/\<close> for the time and the space word.
\<close>

definition solutionRegex :: regex where
  "solutionRegex =
     Seq (Lit solutionLabel) (Seq (Rep isWhiteSpace 0 True) (Seq (Group (Rep anyChar 1 False))
       (Lookahead (Alt (Seq (Lit [0x0A]) (Seq (Alt (Lit timeWord) (Lit spaceWord)) (Lit [0x3A])))
                       Eof))))"

definition complexityRegex :: "js_string \<Rightarrow> regex" where
  "complexityRegex word =
     Seq (Lit word) (Seq (Lit [0x3A]) (Seq (Rep isWhiteSpace 0 True)
       (Group (Seq (Lit [0x4F, 0x28]) (Seq (Rep notCloseParen 1 True) (Lit [0x29]))))))"

definition unknownComplexity :: js_string where
  "unknownComplexity = [0x4F, 0x28, 0x3F, 0x29]"

definition parseAIResponse :: "js_string \<Rightarrow> AISummary" where
  "parseAIResponse content =
     (let solutionMatch = js_match solutionRegex content;
          timeMatch = js_match (complexityRegex timeWord) content;
          spaceMatch = js_match (complexityRegex spaceWord) content
      in \<lparr> solution = js_or (map_option trim (group1 solutionMatch)) (trim content),
           timeComplexity = js_or (group1 timeMatch) unknownComplexity,
           spaceComplexity = js_or (group1 spaceMatch) unknownComplexity \<rparr>)"

subsection \<open>getWeekRange\<close>

text \<open>
  A number that may be \<^verbatim>\<open>NaN\<close> is an optional integer; arithmetic keeps \<^verbatim>\<open>NaN\<close>, and every
  comparison with \<^verbatim>\<open>NaN\<close> is false. The time values met here are integers below \<open>2^53\<close>, which
  the doubles of JavaScript hold exactly.
\<close>

type_synonym js_number = "int option"

definition num_add :: "js_number \<Rightarrow> js_number \<Rightarrow> js_number" where
  "num_add a b = (case a of None \<Rightarrow> None | Some x \<Rightarrow> (case b of None \<Rightarrow> None | Some y \<Rightarrow> Some (x + y)))"

definition num_sub :: "js_number \<Rightarrow> js_number \<Rightarrow> js_number" where
  "num_sub a b = (case a of None \<Rightarrow> None | Some x \<Rightarrow> (case b of None \<Rightarrow> None | Some y \<Rightarrow> Some (x - y)))"

definition num_less :: "js_number \<Rightarrow> js_number \<Rightarrow> bool" where
  "num_less a b = (case a of None \<Rightarrow> False | Some x \<Rightarrow> (case b of None \<Rightarrow> False | Some y \<Rightarrow> x < y))"

text \<open>
  A \<^verbatim>\<open>Date\<close> is its time value: the milliseconds since the epoch, or \<^verbatim>\<open>NaN\<close> for an invalid
  date. \<open>TimeClip\<close> makes a time value beyond 8.64e15 milliseconds invalid. The functions
  \<open>Day\<close>, \<open>TimeWithinDay\<close>, \<open>WeekDay\<close>, \<open>MakeTime\<close> and \<open>MakeDate\<close> are those of ECMA-262.
\<close>

definition maxTime :: int where
  "maxTime = 8640000000000000"

definition TimeClip :: "int \<Rightarrow> js_number" where
  "TimeClip t = (if \<bar>t\<bar> > maxTime then None else Some t)"

definition msPerDay :: int where
  "msPerDay = 86400000"

definition Day :: "int \<Rightarrow> int" where
  "Day t = t div msPerDay"

definition TimeWithinDay :: "int \<Rightarrow> int" where
  "TimeWithinDay t = t mod msPerDay"

definition WeekDay :: "int \<Rightarrow> int" where
  "WeekDay t = (Day t + 4) mod 7"

definition MakeTime :: "int \<Rightarrow> int \<Rightarrow> int \<Rightarrow> int \<Rightarrow> int" where
  "MakeTime hour minute sec ms = hour * 3600000 + minute * 60000 + sec * 1000 + ms"

definition MakeDate :: "int \<Rightarrow> int \<Rightarrow> int" where
  "MakeDate day time = day * msPerDay + time"

text \<open>
  The time zone of the host, as ECMA-262 uses it: \<open>offsetUTC z t\<close> is the offset of local
  time from UTC at the instant \<open>t\<close>, and \<open>offsetLocal z x\<close> the offset by which the local
  time \<open>x\<close> is read back as an instant (for a local time that a change of the offset skips
  or repeats, the offset before the change). The offset may differ from instant to
  instant, as it does where daylight saving time is kept.
\<close>

record zone =
  offsetUTC :: "int \<Rightarrow> int"
  offsetLocal :: "int \<Rightarrow> int"

definition LocalTime :: "zone \<Rightarrow> int \<Rightarrow> int" where
  "LocalTime z t = t + offsetUTC z t"

definition UTC :: "zone \<Rightarrow> int \<Rightarrow> int" where
  "UTC z x = x - offsetLocal z x"

definition getDay :: "zone \<Rightarrow> js_number \<Rightarrow> js_number" where
  "getDay z tv = (case tv of None \<Rightarrow> None | Some t \<Rightarrow> Some (WeekDay (LocalTime z t)))"

text \<open>
  The day of the month depends on the calendar, which is a parameter: \<open>monthStart d\<close> is
  the day number of the first day of the month that holds day \<open>d\<close>. \<^verbatim>\<open>getDate\<close> counts from
  it, and \<^verbatim>\<open>setDate\<close> moves to a day counted from it (below 1 or beyond the month's end
  included, as \<open>MakeDay\<close> does), keeping the time within the day. The setters return the new
  time value of the date.
\<close>

definition getDate :: "zone \<Rightarrow> (int \<Rightarrow> int) \<Rightarrow> js_number \<Rightarrow> js_number" where
  "getDate z monthStart tv =
     (case tv of
        None \<Rightarrow> None
      | Some t \<Rightarrow> let lt = LocalTime z t in Some (Day lt - monthStart (Day lt) + 1))"

definition setDate :: "zone \<Rightarrow> (int \<Rightarrow> int) \<Rightarrow> js_number \<Rightarrow> js_number \<Rightarrow> js_number" where
  "setDate z monthStart tv date =
     (case tv of
        None \<Rightarrow> None
      | Some t \<Rightarrow>
          (case date of
             None \<Rightarrow> None
           | Some dt \<Rightarrow>
               let lt = LocalTime z t
               in TimeClip (UTC z (MakeDate (monthStart (Day lt) + dt - 1) (TimeWithinDay lt)))))"

definition setHours :: "zone \<Rightarrow> js_number \<Rightarrow> int \<Rightarrow> int \<Rightarrow> int \<Rightarrow> int \<Rightarrow> js_number" where
  "setHours z tv hour minute sec ms =
     (case tv of
        None \<Rightarrow> None
      | Some t \<Rightarrow>
          let lt = LocalTime z t
          in TimeClip (UTC z (MakeDate (Day lt) (MakeTime hour minute sec ms))))"



section \<open>functions/src/index.ts\<close>

subsection \<open>The parsing inside getQuestionSummary and generateAISummary\<close>

text \<open>
  \<^verbatim>\<open>/<solution>:\s*(.+?)(?=\n<time>:|$)/s\<close>: the look-ahead of the inline parsing names the time
  label only.
\<close>

definition solutionRegexInline :: regex where
  "solutionRegexInline =
     Seq (Lit solutionLabel) (Seq (Rep isWhiteSpace 0 True) (Seq (Group (Rep anyChar 1 False))
       (Lookahead (Alt (Seq (Lit [0x0A]) (Seq (Lit timeWord) (Lit [0x3A]))) Eof))))"

definition getQuestionSummary_parse :: "js_string \<Rightarrow> AISummary" where
  "getQuestionSummary_parse content =
     (let solutionMatch = js_match solutionRegexInline content;
          timeMatch = js_match (complexityRegex timeWord) content;
          spaceMatch = js_match (complexityRegex spaceWord) content
      in \<lparr> solution = js_or (map_option trim (group1 solutionMatch)) (trim content),
           timeComplexity = js_or (group1 timeMatch) unknownComplexity,
           spaceComplexity = js_or (group1 spaceMatch) unknownComplexity \<rparr>)"

text \<open>
  The outcome of the request to the model: \<^verbatim>\<open>fetch\<close> throws, or there is a response with
  its \<^verbatim>\<open>ok\<close> flag and the text at \<^verbatim>\<open>choices?.[0]?.message?.content\<close>, if any.
\<close>

datatype https_error = FailedPrecondition | Internal

datatype fetch_result = FetchThrows | FetchResponse bool "js_string option"

definition getQuestionSummary :: "bool \<Rightarrow> fetch_result \<Rightarrow> https_error + AISummary" where
  "getQuestionSummary hasApiKey response =
     (if \<not> hasApiKey then Inl FailedPrecondition
      else case response of
        FetchThrows \<Rightarrow> Inl Internal
      | FetchResponse ok body \<Rightarrow>
          if \<not> ok then Inl Internal
          else let content = js_or body [] in Inr (getQuestionSummary_parse content))"

definition generateAISummary :: "fetch_result \<Rightarrow> AISummary option" where
  "generateAISummary response =
     (case response of
        FetchThrows \<Rightarrow> None
      | FetchResponse ok body \<Rightarrow>
          if \<not> ok then None
          else let content = js_or body [] in Some (getQuestionSummary_parse content))"

subsection \<open>backfillWeekSummaries\<close>

text \<open>
  The body of the loop for one document, with the two counters. \<open>parseDate\<close> is
  \<^verbatim>\<open>new Date(question.sentDate)\<close>, \<open>fetch docId\<close> the outcome of the request for that
  document and \<open>updateOk docId\<close> whether \<^verbatim>\<open>doc.ref.update\<close> resolves.
\<close>

definition backfillDoc ::
  "js_number \<Rightarrow> js_number \<Rightarrow> (js_string \<Rightarrow> js_number) \<Rightarrow> (js_string \<Rightarrow> fetch_result) \<Rightarrow>
   (js_string \<Rightarrow> bool) \<Rightarrow> js_string \<Rightarrow> RetrievedQuestion \<Rightarrow> nat \<Rightarrow> nat \<Rightarrow>
   RetrievedQuestion \<times> nat \<times> nat" where
  "backfillDoc sunday thursday parseDate fetch updateOk docId question updated errors =
     (let sentDate' = parseDate (sentDate question)
      in if num_less sentDate' sunday \<or> num_less thursday sentDate'
         then (question, updated, errors)
         else if aiSummary question \<noteq> None then (question, updated, errors)
         else (case generateAISummary (fetch docId) of
                 None \<Rightarrow> (question, updated, errors + 1)
               | Some s \<Rightarrow>
                   if updateOk docId
                   then (question\<lparr> aiSummary := Some s \<rparr>, updated + 1, errors)
                   else (question, updated, errors + 1)))"

fun backfillLoop ::
  "js_number \<Rightarrow> js_number \<Rightarrow> (js_string \<Rightarrow> js_number) \<Rightarrow> (js_string \<Rightarrow> fetch_result) \<Rightarrow>
   (js_string \<Rightarrow> bool) \<Rightarrow> RetrievedQuestion collection \<Rightarrow> nat \<Rightarrow> nat \<Rightarrow>
   RetrievedQuestion collection \<times> nat \<times> nat" where
  "backfillLoop sunday thursday parseDate fetch updateOk [] updated errors =
     ([], updated, errors)"
| "backfillLoop sunday thursday parseDate fetch updateOk ((docId, question) # docs)
       updated errors =
     (let (question', updated', errors') =
            backfillDoc sunday thursday parseDate fetch updateOk docId question updated errors;
          (rest, updated'', errors'') =
            backfillLoop sunday thursday parseDate fetch updateOk docs updated' errors'
      in ((docId, question') # rest, updated'', errors''))"

text \<open>\<open>now\<close> is the time value of \<^verbatim>\<open>new Date()\<close>, the clock of the host.\<close>

definition backfillWeekSummaries ::
  "bool \<Rightarrow> bool \<Rightarrow> zone \<Rightarrow> (int \<Rightarrow> int) \<Rightarrow> int \<Rightarrow> (js_string \<Rightarrow> js_number) \<Rightarrow>
   (js_string \<Rightarrow> fetch_result) \<Rightarrow> (js_string \<Rightarrow> bool) \<Rightarrow> RetrievedQuestion collection \<Rightarrow>
   (https_error + nat \<times> nat) \<times> RetrievedQuestion collection" where
  "backfillWeekSummaries hasApiKey getOk z monthStart now parseDate fetch updateOk col =
     (if \<not> hasApiKey then (Inl FailedPrecondition, col)
      else
        let dayOfWeek = getDay z (Some now);
            sunday0 = setDate z monthStart (Some now)
                        (num_sub (getDate z monthStart (Some now)) dayOfWeek);
            sunday = setHours z sunday0 0 0 0 0;
            thursday0 = setDate z monthStart sunday
                          (num_add (getDate z monthStart sunday) (Some 4));
            thursday = setHours z thursday0 23 59 59 999
        in if \<not> getOk then (Inl Internal, col)
           else
             let (col', updated, errors) =
                   backfillLoop sunday thursday parseDate fetch updateOk col 0 0
             in (Inr (updated, errors), col'))"

section \<open>The writers of the sent store\<close>

text \<open>
  In the sources, the collection \<^verbatim>\<open>retrievedQuestions\<close> is written by
  \<open>markQuestionAsSent\<close> and \<open>unsendQuestion\<close> of the client and by
  \<open>backfillWeekSummaries\<close>; the other uses of the collection read it. A run of the
  system is a list of these calls, each with the outcomes of its environment.
\<close>

datatype store_op =
    MarkQuestionAsSent bool js_string bool "AISummary option" "(js_string \<times> nat) option" Question
  | UnsendQuestion bool bool js_string
  | BackfillWeekSummaries bool bool zone "int \<Rightarrow> int" int "js_string \<Rightarrow> js_number"
      "js_string \<Rightarrow> fetch_result" "js_string \<Rightarrow> bool"

fun applyOp :: "store_op \<Rightarrow> RetrievedQuestion collection \<Rightarrow> RetrievedQuestion collection" where
  "applyOp (MarkQuestionAsSent queryOk nowIso functionsInit callResult addResult question) col =
     snd (markQuestionAsSent queryOk nowIso functionsInit callResult addResult col question)"
| "applyOp (UnsendQuestion queryOk deleteOk qId) col =
     snd (unsendQuestion queryOk deleteOk col qId)"
| "applyOp (BackfillWeekSummaries hasApiKey getOk z monthStart now parseDate fetch updateOk) col =
     snd (backfillWeekSummaries hasApiKey getOk z monthStart now parseDate fetch updateOk col)"

definition runOps :: "store_op list \<Rightarrow> RetrievedQuestion collection \<Rightarrow> RetrievedQuestion collection" where
  "runOps ops col = fold applyOp ops col"

section \<open>Notions of the specification\<close>

text \<open>The records of a question in the sent store.\<close>

definition recordsOf :: "RetrievedQuestion collection \<Rightarrow> js_string \<Rightarrow> RetrievedQuestion collection" where
  "recordsOf col qId = filter (\<lambda>d. questionId (snd d) = qId) col"

definition allChosen :: "RetrievedQuestion collection \<Rightarrow> bool" where
  "allChosen col = list_all (\<lambda>d. isChosen (snd d)) col"

text \<open>The time label and the space label, each with its colon.\<close>

definition timeLabel :: js_string where
  "timeLabel = timeWord @ [0x3A]"

definition spaceLabel :: js_string where
  "spaceLabel = spaceWord @ [0x3A]"

text \<open>
  The solution segment in the words of the specification, not of the code:
  \<open>afterLabel\<close> is the text after the first occurrence of a label, \<open>uptoLine\<close> the text up
  to, and not including, the next line that begins with one of the given labels, or up
  to the end of the text, and \<open>specSolution\<close> the trimmed segment between the solution
  label and the next time or space line.
\<close>

fun afterLabel :: "js_string \<Rightarrow> js_string \<Rightarrow> js_string option" where
  "afterLabel l [] = (if l = [] then Some [] else None)"
| "afterLabel l (x # xs) =
     (if prefix l (x # xs) then Some (drop (length l) (x # xs)) else afterLabel l xs)"

definition lineStart :: "js_string list \<Rightarrow> js_string \<Rightarrow> bool" where
  "lineStart labels s = (\<exists>l\<in>set labels. prefix (0x0A # l) s)"

fun uptoLine :: "js_string list \<Rightarrow> js_string \<Rightarrow> js_string" where
  "uptoLine labels [] = []"
| "uptoLine labels (x # xs) =
     (if lineStart labels (x # xs) then [] else x # uptoLine labels xs)"

definition specSolution :: "js_string \<Rightarrow> js_string option" where
  "specSolution content =
     map_option (\<lambda>rest. trim (uptoLine [timeLabel, spaceLabel] rest))
       (afterLabel solutionLabel content)"

subsection \<open>Sample data\<close>

text \<open>A question, a summary, the sent record of the question and a sent record of another
  question, for concrete runs.\<close>

definition exampleQuestion :: Question where
  "exampleQuestion =
     \<lparr> idQ = [0x31], frontendQuestionId = [0x34, 0x32], title = [0x54, 0x77, 0x6F],
       titleSlug = [0x74, 0x77, 0x6F], difficulty = [0x45, 0x61, 0x73, 0x79],
       topicTags = [] \<rparr>"

definition exampleSummary :: AISummary where
  "exampleSummary =
     \<lparr> solution = [0x68, 0x61, 0x73, 0x68], timeComplexity = [0x4F, 0x28, 0x6E, 0x29],
       spaceComplexity = [0x4F, 0x28, 0x6E, 0x29] \<rparr>"

definition exampleRecord :: RetrievedQuestion where
  "exampleRecord = createRetrievedQuestion [0x32, 0x30, 0x32, 0x36] exampleQuestion"

definition exampleOtherRecord :: RetrievedQuestion where
  "exampleOtherRecord = exampleRecord\<lparr> questionId := [0x32] \<rparr>"

text \<open>A well-formed response, \<^verbatim>\<open><solution>: a\n<time>: O(n)\n<space>: O(1)\<close>, and the same
  without its time line.\<close>

definition exampleResponse :: js_string where
  "exampleResponse =
     solutionLabel @ [0x20, 0x61, 0x0A] @ timeLabel @ [0x20, 0x4F, 0x28, 0x6E, 0x29, 0x0A]
       @ spaceLabel @ [0x20, 0x4F, 0x28, 0x31, 0x29]"

definition exampleResponseNoTime :: js_string where
  "exampleResponseNoTime =
     solutionLabel @ [0x20, 0x61, 0x0A] @ spaceLabel @ [0x20, 0x4F, 0x28, 0x31, 0x29]"




section \<open>Properties of the sent store\<close>

lemma isQuestionAlreadySent_none:
  "recordsOf col qId = [] \<Longrightarrow>
   isQuestionAlreadySent ok col qId = \<lparr> isSent = False, retrievedDocId = None \<rparr>"
  by (simp add: isQuestionAlreadySent_def recordsOf_def)

lemma isQuestionAlreadySent_some:
  "recordsOf col qId = d # ds \<Longrightarrow>
   isQuestionAlreadySent True col qId = \<lparr> isSent = True, retrievedDocId = Some (fst d) \<rparr>"
  by (simp add: isQuestionAlreadySent_def recordsOf_def)

lemma recordsOf_addDoc:
  "recordsOf (addDoc col newId pos v) qId =
     recordsOf (take pos col) qId @
     (if questionId v = qId then [(newId, v)] else []) @ recordsOf (drop pos col) qId"
  by (simp add: recordsOf_def addDoc_def)

lemma recordsOf_take_drop:
  "recordsOf (take pos col) qId @ recordsOf (drop pos col) qId = recordsOf col qId"
  unfolding recordsOf_def by (metis append_take_drop_id filter_append)

lemma recordsOf_deleteDoc_first:
  assumes "recordsOf col qId = d # ds" "distinct (map fst col)"
  shows "recordsOf (deleteDoc col (fst d)) qId = ds"
proof -
  have "recordsOf (deleteDoc col (fst d)) qId = filter (\<lambda>e. fst e \<noteq> fst d) (recordsOf col qId)"
    by (simp add: recordsOf_def deleteDoc_def conj_commute)
  also have "\<dots> = filter (\<lambda>e. fst e \<noteq> fst d) ds" using assms by simp
  also have "\<dots> = ds"
  proof -
    have "distinct (map fst (recordsOf col qId))"
      using assms(2) unfolding recordsOf_def by (simp add: distinct_map_filter)
    then have "fst d \<notin> fst ` set ds" using assms(1) by simp
    then have "\<forall>e\<in>set ds. fst e \<noteq> fst d" by (metis image_eqI)
    then show ?thesis by (simp add: filter_id_conv)
  qed
  finally show ?thesis .
qed

lemma recordsOf_deleteDoc_single:
  assumes "recordsOf col qId = [d]"
  shows "recordsOf (deleteDoc col (fst d)) qId = []"
proof -
  have "recordsOf (deleteDoc col (fst d)) qId = filter (\<lambda>e. fst e \<noteq> fst d) (recordsOf col qId)"
    by (simp add: recordsOf_def deleteDoc_def conj_commute)
  then show ?thesis using assms by simp
qed

lemma length_deleteDoc:
  assumes "distinct (map fst col)" "d \<in> set col"
  shows "Suc (length (deleteDoc col (fst d))) = length col"
  using assms
proof (induction col)
  case Nil
  then show ?case by simp
next
  case (Cons c col)
  show ?case
  proof (cases "c = d")
    case True
    then have "\<forall>e\<in>set col. fst e \<noteq> fst d" using Cons.prems(1) by (metis distinct.simps(2) image_eqI list.simps(9) set_map)
    then have "filter (\<lambda>e. fst e \<noteq> fst d) col = col" by (simp add: filter_id_conv)
    then show ?thesis using True by (simp add: deleteDoc_def)
  next
    case False
    then have d: "d \<in> set col" using Cons.prems(2) by simp
    then have "fst c \<noteq> fst d" using Cons.prems(1) by (metis distinct.simps(2) image_eqI list.simps(9) set_map)
    then show ?thesis using Cons.IH d Cons.prems(1) by (simp add: deleteDoc_def)
  qed
qed

lemma js_index_random:
  assumes "0 \<le> r" "r < 1" "xs \<noteq> []"
  shows "\<exists>x\<in>set xs. js_index xs \<lfloor>r * real (length xs)\<rfloor> = Some x"
proof -
  let ?n = "length xs"
  have n: "0 < real ?n" using assms(3) by simp
  have lo: "0 \<le> \<lfloor>r * real ?n\<rfloor>" using assms(1) by simp
  have "r * real ?n < real ?n" using assms(2) n by simp
  then have hi: "\<lfloor>r * real ?n\<rfloor> < int ?n" by (simp add: floor_less_iff)
  then have "nat \<lfloor>r * real ?n\<rfloor> < ?n" using lo by linarith
  then have "xs ! nat \<lfloor>r * real ?n\<rfloor> \<in> set xs" by (rule nth_mem)
  moreover have "js_index xs \<lfloor>r * real ?n\<rfloor> = Some (xs ! nat \<lfloor>r * real ?n\<rfloor>)"
    unfolding js_index_def using lo hi by (simp only: if_True simp_thms)
  ultimately show ?thesis by blast
qed

subsection \<open>Selection\<close>

text \<open>
  Claim C1. When both reads succeed and the random number lies in \<open>[0, 1)\<close>: if some
  question of the requested difficulty has an id that is not among the \<open>questionId\<close>
  values of the sent store, \<open>getRandomUnsentQuestionByDifficulty\<close> returns a question of
  that difficulty whose id is not among them.
\<close>

theorem getRandomUnsent_returns_unsent:
  assumes r: "0 \<le> random" "random < 1"
    and ex: "\<exists>d\<in>set questionsCol. Question.difficulty (snd d) = dif \<and>
               fst d \<notin> set (map (\<lambda>r. questionId (snd r)) retrievedCol)"
  shows "\<exists>q. getRandomUnsentQuestionByDifficulty True True random questionsCol retrievedCol dif
              = Some q
            \<and> Question.difficulty q = dif
            \<and> idQ q \<notin> set (map (\<lambda>r. questionId (snd r)) retrievedCol)"
proof -
  let ?qs = "map convertDocToQuestion
               (filter (\<lambda>d. Question.difficulty (snd d) = dif) questionsCol)"
  let ?sent = "map (\<lambda>r. questionId (snd r)) retrievedCol"
  let ?av = "filter (\<lambda>question. idQ question \<notin> set ?sent) ?qs"
  from ex obtain d where d: "d \<in> set questionsCol" "Question.difficulty (snd d) = dif"
    "fst d \<notin> set ?sent" by blast
  have "d \<in> set (filter (\<lambda>d. Question.difficulty (snd d) = dif) questionsCol)"
    using d by simp
  then have "convertDocToQuestion d \<in> set ?qs" by (metis image_eqI set_map)
  moreover have "idQ (convertDocToQuestion d) = fst d" by (simp add: convertDocToQuestion_def)
  ultimately have "convertDocToQuestion d \<in> set ?av" using d(3) by simp
  then have av: "?av \<noteq> []" by (metis empty_iff empty_set)
  have qs: "?qs \<noteq> []" using av by (metis filter.simps(1))
  from js_index_random[OF r av] obtain x where
    x: "x \<in> set ?av" "js_index ?av \<lfloor>random * real (length ?av)\<rfloor> = Some x" by blast
  have res: "getRandomUnsentQuestionByDifficulty True True random questionsCol retrievedCol dif
        = Some x"
    unfolding getRandomUnsentQuestionByDifficulty_def Let_def using av qs x(2)
    by (simp only: simp_thms if_False if_True length_0_conv)
  have "Question.difficulty x = dif" "idQ x \<notin> set ?sent"
    using x(1) by (auto simp: convertDocToQuestion_def)
  with res show ?thesis by blast
qed

theorem getRandomUnsent_returns_unsent_witness:
  "(0::real) \<le> 1 / 2 \<and> (1 / 2 :: real) < 1
   \<and> (\<exists>d\<in>set [([0x31 :: 16 word], exampleQuestion)].
         Question.difficulty (snd d) = [0x45, 0x61, 0x73, 0x79] \<and>
         fst d \<notin> set (map (\<lambda>r. questionId (snd r)) []))
   \<and> getRandomUnsentQuestionByDifficulty True True (1 / 2) [([0x31], exampleQuestion)] []
        [0x45, 0x61, 0x73, 0x79] = Some exampleQuestion"
proof -
  have h1: "(0::real) \<le> 1 / 2" and h2: "(1 / 2 :: real) < 1" by simp_all
  have h3: "\<exists>d\<in>set [([0x31 :: 16 word], exampleQuestion)].
         Question.difficulty (snd d) = [0x45, 0x61, 0x73, 0x79] \<and>
         fst d \<notin> set (map (\<lambda>r. questionId (snd r)) [])"
    by (simp add: exampleQuestion_def)
  show ?thesis
    using h1 h2 h3 getRandomUnsent_returns_unsent [OF h1 h2 h3]
    by (auto simp: getRandomUnsentQuestionByDifficulty_def convertDocToQuestion_def
          exampleQuestion_def js_index_def split: if_splits)
qed

text \<open>
  Claim C2. When both reads succeed and the random number lies in \<open>[0, 1)\<close>: if the
  questions of the requested difficulty are \<open>N > 0\<close>, the selection returns one of these
  \<open>N\<close> questions and never \<^verbatim>\<open>null\<close>, whatever the sent store holds; in particular when
  all of them have a sent record.
\<close>

theorem getRandomUnsent_never_null:
  assumes r: "0 \<le> random" "random < 1"
    and ne: "filter (\<lambda>d. Question.difficulty (snd d) = dif) questionsCol \<noteq> []"
  shows "\<exists>q. getRandomUnsentQuestionByDifficulty True True random questionsCol retrievedCol dif
              = Some q
            \<and> q \<in> set (map convertDocToQuestion
                 (filter (\<lambda>d. Question.difficulty (snd d) = dif) questionsCol))"
proof -
  let ?qs = "map convertDocToQuestion
               (filter (\<lambda>d. Question.difficulty (snd d) = dif) questionsCol)"
  let ?sent = "map (\<lambda>r. questionId (snd r)) retrievedCol"
  let ?av = "filter (\<lambda>question. idQ question \<notin> set ?sent) ?qs"
  have qs: "?qs \<noteq> []" using ne by simp
  show ?thesis
  proof (cases "?av = []")
    case True
    from js_index_random[OF r qs] obtain x where
      x: "x \<in> set ?qs" "js_index ?qs \<lfloor>random * real (length ?qs)\<rfloor> = Some x" by blast
    have "getRandomUnsentQuestionByDifficulty True True random questionsCol retrievedCol dif
        = Some x"
      unfolding getRandomUnsentQuestionByDifficulty_def Let_def using True qs x(2)
      by (simp only: simp_thms if_False if_True length_0_conv)
    with x(1) show ?thesis by blast
  next
    case False
    from js_index_random[OF r False] obtain x where
      x: "x \<in> set ?av" "js_index ?av \<lfloor>random * real (length ?av)\<rfloor> = Some x" by blast
    have "getRandomUnsentQuestionByDifficulty True True random questionsCol retrievedCol dif
        = Some x"
      unfolding getRandomUnsentQuestionByDifficulty_def Let_def using False qs x(2)
      by (simp only: simp_thms if_False if_True length_0_conv)
    moreover have "x \<in> set ?qs" using x(1) by simp
    ultimately show ?thesis by blast
  qed
qed

theorem getRandomUnsent_never_null_witness:
  "(0::real) \<le> 1 / 2 \<and> (1 / 2 :: real) < 1
   \<and> filter (\<lambda>d. Question.difficulty (snd d) = [0x45, 0x61, 0x73, 0x79])
        [([0x31 :: 16 word], exampleQuestion)] \<noteq> []
   \<and> getRandomUnsentQuestionByDifficulty True True (1 / 2) [([0x31], exampleQuestion)]
        [([0x61], exampleRecord)] [0x45, 0x61, 0x73, 0x79] = Some exampleQuestion"
proof -
  have h1: "(0::real) \<le> 1 / 2" and h2: "(1 / 2 :: real) < 1" by simp_all
  have h3: "filter (\<lambda>d. Question.difficulty (snd d) = [0x45, 0x61, 0x73, 0x79])
        [([0x31 :: 16 word], exampleQuestion)] \<noteq> []"
    by (simp add: exampleQuestion_def)
  show ?thesis
    using h1 h2 h3 getRandomUnsent_never_null [OF h1 h2 h3, of "[([0x61], exampleRecord)]"]
    by (auto simp: getRandomUnsentQuestionByDifficulty_def convertDocToQuestion_def
          exampleQuestion_def js_index_def split: if_splits)
qed

subsection \<open>Marking and unmarking\<close>

text \<open>
  Claim C4. From a store with non-empty document ids and at most one record of the
  question, with store calls that succeed: two calls of \<open>markQuestionAsSent\<close> in
  sequence return the same record id, the second call leaves the store as it is, and
  the store then holds exactly one record of the question.
\<close>

theorem markQuestionAsSent_twice:
  assumes ids: "\<forall>d\<in>set col. fst d \<noteq> []" and newId: "newId \<noteq> []"
    and one: "length (recordsOf col (idQ q)) \<le> 1"
  shows "let r1 = markQuestionAsSent True now1 fi1 cr1 (Some (newId, pos)) col q;
             r2 = markQuestionAsSent True now2 fi2 cr2 add2 (snd r1) q
         in fst r1 \<noteq> None \<and> fst r2 = fst r1 \<and> snd r2 = snd r1
            \<and> length (recordsOf (snd r2) (idQ q)) = 1"
proof (cases "recordsOf col (idQ q)")
  case Nil
  let ?rq = "case getAISummary fi1 cr1 q of
                 Some s \<Rightarrow> (createRetrievedQuestion now1 q)\<lparr> aiSummary := Some s \<rparr>
               | None \<Rightarrow> createRetrievedQuestion now1 q"
  let ?col1 = "addDoc col newId pos ?rq"
  have qid: "questionId ?rq = idQ q"
    by (simp add: createRetrievedQuestion_def split: option.split)
  have r1: "markQuestionAsSent True now1 fi1 cr1 (Some (newId, pos)) col q = (Some newId, ?col1)"
    by (simp add: markQuestionAsSent_def isQuestionAlreadySent_none[OF Nil] Let_def)
  have "recordsOf (take pos col) (idQ q) @ recordsOf (drop pos col) (idQ q) = []"
    using recordsOf_take_drop[of pos col "idQ q"] Nil by simp
  then have rec1: "recordsOf ?col1 (idQ q) = [(newId, ?rq)]"
    using qid by (simp add: recordsOf_addDoc)
  have r2: "markQuestionAsSent True now2 fi2 cr2 add2 ?col1 q = (Some newId, ?col1)"
    using newId
    by (simp add: markQuestionAsSent_def isQuestionAlreadySent_some[OF rec1] truthy_def)
  show ?thesis using r1 r2 rec1 by (simp add: Let_def)
next
  case (Cons d ds)
  with one have ds: "ds = []" by simp
  have "d \<in> set (recordsOf col (idQ q))" using Cons by simp
  then have "d \<in> set col" by (simp add: recordsOf_def)
  then have dne: "fst d \<noteq> []" using ids by blast
  have r: "markQuestionAsSent True n f c a col q = (Some (fst d), col)" for n f c a
    using dne by (simp add: markQuestionAsSent_def isQuestionAlreadySent_some[OF Cons] truthy_def)
  show ?thesis using Cons ds by (simp add: r Let_def)
qed

theorem markQuestionAsSent_twice_witness:
  "[] \<notin> set (map fst [([0x62 :: 16 word], exampleOtherRecord)])
   \<and> [0x61 :: 16 word] \<noteq> []
   \<and> length (recordsOf [([0x62], exampleOtherRecord)] (idQ exampleQuestion)) \<le> 1
   \<and> markQuestionAsSent True [0x32, 0x30, 0x32, 0x36] False None (Some ([0x61], 2))
        [([0x62], exampleOtherRecord)] exampleQuestion
       = (Some [0x61], [([0x62], exampleOtherRecord), ([0x61], exampleRecord)])
   \<and> markQuestionAsSent True [0x32, 0x30, 0x32, 0x37] False None (Some ([0x63], 0))
        [([0x62], exampleOtherRecord), ([0x61], exampleRecord)] exampleQuestion
       = (Some [0x61], [([0x62], exampleOtherRecord), ([0x61], exampleRecord)])
   \<and> length (recordsOf [([0x62], exampleOtherRecord), ([0x61], exampleRecord)]
        (idQ exampleQuestion)) = 1"
proof -
  let ?col = "[([0x62], exampleOtherRecord)] :: RetrievedQuestion collection"
  have q: "questionId exampleRecord = [0x31]" "questionId exampleOtherRecord = [0x32]"
    "idQ exampleQuestion = [0x31]"
    by (simp_all add: exampleOtherRecord_def exampleRecord_def createRetrievedQuestion_def
          exampleQuestion_def)
  have h1: "\<forall>d\<in>set ?col. fst d \<noteq> []" by simp
  have h2: "[0x61 :: 16 word] \<noteq> []" by simp
  have h3: "length (recordsOf ?col (idQ exampleQuestion)) \<le> 1" by (simp add: recordsOf_def)
  have r1: "markQuestionAsSent True [0x32, 0x30, 0x32, 0x36] False None (Some ([0x61], 2))
        ?col exampleQuestion
       = (Some [0x61], [([0x62], exampleOtherRecord), ([0x61], exampleRecord)])"
    by (simp add: markQuestionAsSent_def isQuestionAlreadySent_def getAISummary_def
          addDoc_def q) (simp add: exampleRecord_def)
  show ?thesis
    using h2 h3
      markQuestionAsSent_twice [OF h1 h2 h3, of "[0x32, 0x30, 0x32, 0x36]" False None 2
            "[0x32, 0x30, 0x32, 0x37]" False None "Some ([0x63], 0)"]
    by (simp add: r1 Let_def prod_eq_iff recordsOf_def q)
qed

text \<open>
  Claim C5. From a store without a record of the question: \<open>markQuestionAsSent\<close>
  (the insert succeeding) followed by \<open>unsendQuestion\<close> (query and delete succeeding)
  returns \<open>True\<close>, and \<open>isQuestionAlreadySent\<close> then reports \<open>isSent = False\<close>.
\<close>

theorem mark_unsend_roundtrip:
  assumes norec: "recordsOf col (idQ q) = []" and newId: "newId \<noteq> []"
  shows "let r1 = markQuestionAsSent queryOk nowIso fi cr (Some (newId, pos)) col q;
             r2 = unsendQuestion True True (snd r1) (idQ q)
         in fst r1 = Some newId \<and> fst r2 = True
            \<and> isSent (isQuestionAlreadySent queryOk' (snd r2) (idQ q)) = False"
proof -
  let ?rq = "case getAISummary fi cr q of
                 Some s \<Rightarrow> (createRetrievedQuestion nowIso q)\<lparr> aiSummary := Some s \<rparr>
               | None \<Rightarrow> createRetrievedQuestion nowIso q"
  let ?col1 = "addDoc col newId pos ?rq"
  have qid: "questionId ?rq = idQ q"
    by (simp add: createRetrievedQuestion_def split: option.split)
  have r1: "markQuestionAsSent queryOk nowIso fi cr (Some (newId, pos)) col q = (Some newId, ?col1)"
    by (simp add: markQuestionAsSent_def isQuestionAlreadySent_none[OF norec] Let_def)
  have "recordsOf (take pos col) (idQ q) @ recordsOf (drop pos col) (idQ q) = []"
    using recordsOf_take_drop[of pos col "idQ q"] norec by simp
  then have rec1: "recordsOf ?col1 (idQ q) = [(newId, ?rq)]"
    using qid by (simp add: recordsOf_addDoc)
  have r2: "unsendQuestion True True ?col1 (idQ q) = (True, deleteDoc ?col1 newId)"
    using newId
    by (simp add: unsendQuestion_def isQuestionAlreadySent_some[OF rec1] truthy_def)
  have "recordsOf (deleteDoc ?col1 newId) (idQ q) = []"
    using recordsOf_deleteDoc_single[OF rec1] by simp
  then have "isSent (isQuestionAlreadySent queryOk' (deleteDoc ?col1 newId) (idQ q)) = False"
    by (simp add: isQuestionAlreadySent_none)
  then show ?thesis using r1 r2 by (simp add: Let_def)
qed

theorem mark_unsend_roundtrip_witness:
  "recordsOf [] (idQ exampleQuestion) = [] \<and> [0x61 :: 16 word] \<noteq> []
   \<and> markQuestionAsSent True [0x32, 0x30, 0x32, 0x36] False None (Some ([0x61], 0)) []
        exampleQuestion = (Some [0x61], [([0x61], exampleRecord)])
   \<and> fst (unsendQuestion True True [([0x61], exampleRecord)] (idQ exampleQuestion)) = True
   \<and> isSent (isQuestionAlreadySent True
        (snd (unsendQuestion True True [([0x61], exampleRecord)] (idQ exampleQuestion)))
        (idQ exampleQuestion)) = False"
proof -
  have h1: "recordsOf [] (idQ exampleQuestion) = []" by (simp add: recordsOf_def)
  have h2: "[0x61 :: 16 word] \<noteq> []" by simp
  have r1: "markQuestionAsSent True [0x32, 0x30, 0x32, 0x36] False None (Some ([0x61], 0)) []
        exampleQuestion = (Some [0x61], [([0x61], exampleRecord)])"
    by (simp add: markQuestionAsSent_def isQuestionAlreadySent_def getAISummary_def
          addDoc_def exampleRecord_def)
  show ?thesis
    using h1 h2
      mark_unsend_roundtrip [OF h1 h2, of True "[0x32, 0x30, 0x32, 0x36]" False None 0 True]
    by (simp add: r1 Let_def)
qed

text \<open>
  Claim C6. When the summary fetch fails (the functions client is not initialised, or
  the call throws) and the question has no record, \<open>markQuestionAsSent\<close> still inserts
  the record, without \<open>aiSummary\<close>, and returns the id of the new document.
\<close>

theorem markQuestionAsSent_summary_failure:
  assumes norec: "recordsOf col (idQ q) = []"
    and fail: "\<not> functionsInit \<or> callResult = None"
  shows "markQuestionAsSent queryOk nowIso functionsInit callResult (Some (newId, pos)) col q
         = (Some newId, addDoc col newId pos (createRetrievedQuestion nowIso q))
       \<and> aiSummary (createRetrievedQuestion nowIso q) = None"
  using fail
  by (auto simp: markQuestionAsSent_def isQuestionAlreadySent_none[OF norec] getAISummary_def
        createRetrievedQuestion_def truthy_def)

theorem markQuestionAsSent_summary_failure_witness:
  "recordsOf [] (idQ exampleQuestion) = []
   \<and> getAISummary False (Some exampleSummary) exampleQuestion = None
   \<and> markQuestionAsSent True [0x32, 0x30, 0x32, 0x36] False (Some exampleSummary)
        (Some ([0x61], 0)) [] exampleQuestion = (Some [0x61], [([0x61], exampleRecord)])
   \<and> aiSummary exampleRecord = None"
proof -
  have h: "recordsOf [] (idQ exampleQuestion) = []" by (simp add: recordsOf_def)
  have f: "\<not> False \<or> Some exampleSummary = None" by simp
  show ?thesis
    using h markQuestionAsSent_summary_failure [OF h f, of True "[0x32, 0x30, 0x32, 0x36]" "[0x61]" 0]
    by (simp add: exampleRecord_def addDoc_def getAISummary_def)
qed

text \<open>
  Claim C9. In a store (distinct, non-empty document ids) with two or more records of
  one question, a successful \<open>unsendQuestion\<close> returns \<open>True\<close>, deletes exactly one
  document, the first record of the question, and leaves the others, so that
  \<open>isQuestionAlreadySent\<close> still reports \<open>isSent = True\<close>.
\<close>

theorem unsendQuestion_deletes_one:
  assumes dist: "distinct (map fst col)" and ids: "\<forall>d\<in>set col. fst d \<noteq> []"
    and dup: "2 \<le> length (recordsOf col qId)"
  shows "let r = unsendQuestion True True col qId
         in fst r = True
            \<and> Suc (length (snd r)) = length col
            \<and> recordsOf (snd r) qId = tl (recordsOf col qId)
            \<and> isSent (isQuestionAlreadySent True (snd r) qId) = True"
proof -
  from dup obtain d e es where rec: "recordsOf col qId = d # e # es"
    by (cases "recordsOf col qId"; cases "tl (recordsOf col qId)") auto
  have "d \<in> set (recordsOf col qId)" using rec by simp
  then have din: "d \<in> set col" by (simp add: recordsOf_def)
  then have dne: "fst d \<noteq> []" using ids by blast
  have r: "unsendQuestion True True col qId = (True, deleteDoc col (fst d))"
    using dne by (simp add: unsendQuestion_def isQuestionAlreadySent_some[OF rec] truthy_def)
  have rest: "recordsOf (deleteDoc col (fst d)) qId = e # es"
    using recordsOf_deleteDoc_first[OF rec dist] .
  have "isSent (isQuestionAlreadySent True (deleteDoc col (fst d)) qId) = True"
    by (simp add: isQuestionAlreadySent_some[OF rest])
  then show ?thesis using r rest rec length_deleteDoc[OF dist din] by (simp add: Let_def)
qed

theorem unsendQuestion_deletes_one_witness:
  "distinct (map fst [([0x61 :: 16 word], exampleRecord), ([0x62], exampleRecord)])
   \<and> [] \<notin> set (map fst [([0x61 :: 16 word], exampleRecord), ([0x62], exampleRecord)])
   \<and> 2 \<le> length (recordsOf [([0x61], exampleRecord), ([0x62], exampleRecord)] [0x31])
   \<and> unsendQuestion True True [([0x61], exampleRecord), ([0x62], exampleRecord)] [0x31]
       = (True, [([0x62], exampleRecord)])
   \<and> isSent (isQuestionAlreadySent True [([0x62], exampleRecord)] [0x31]) = True"
proof -
  let ?col = "[([0x61], exampleRecord), ([0x62], exampleRecord)] :: RetrievedQuestion collection"
  have q: "questionId exampleRecord = [0x31]"
    by (simp add: exampleRecord_def createRetrievedQuestion_def exampleQuestion_def)
  have h1: "distinct (map fst ?col)" by simp
  have h2: "\<forall>d\<in>set ?col. fst d \<noteq> []" by simp
  have h3: "2 \<le> length (recordsOf ?col [0x31])" by (simp add: recordsOf_def q)
  have r: "unsendQuestion True True ?col [0x31] = (True, [([0x62], exampleRecord)])"
    by (simp add: unsendQuestion_def isQuestionAlreadySent_def q truthy_def deleteDoc_def)
  show ?thesis
    using h1 h2 h3 unsendQuestion_deletes_one [OF h1 h2 h3]
    by (simp add: r Let_def)
qed

subsection \<open>The isChosen field\<close>

lemma allChosen_addDoc:
  "allChosen col \<Longrightarrow> isChosen v \<Longrightarrow> allChosen (addDoc col newId pos v)"
  unfolding allChosen_def addDoc_def list_all_iff
  by (auto dest: in_set_takeD in_set_dropD)

lemma allChosen_deleteDoc: "allChosen col \<Longrightarrow> allChosen (deleteDoc col docId)"
  unfolding allChosen_def deleteDoc_def list_all_iff by simp

lemma allChosen_mark:
  "allChosen col \<Longrightarrow> allChosen (snd (markQuestionAsSent qok nowIso fi cr ar col q))"
  unfolding markQuestionAsSent_def Let_def
  by (auto simp: createRetrievedQuestion_def intro!: allChosen_addDoc split: option.splits)

lemma allChosen_unsend:
  "allChosen col \<Longrightarrow> allChosen (snd (unsendQuestion qok dok col qId))"
  unfolding unsendQuestion_def Let_def
  by (auto intro: allChosen_deleteDoc split: option.splits)

lemma isChosen_backfillDoc:
  "isChosen (fst (backfillDoc su th pd fe uo docId question u e)) = isChosen question"
  by (simp add: backfillDoc_def Let_def split: option.split)

lemma allChosen_backfillLoop:
  "allChosen col \<Longrightarrow> allChosen (fst (backfillLoop su th pd fe uo col u e))"
proof (induction col arbitrary: u e)
  case Nil
  then show ?case by (simp add: allChosen_def)
next
  case (Cons d col)
  obtain docId question where d: "d = (docId, question)" by (cases d)
  have c: "isChosen question" and r: "allChosen col"
    using Cons.prems by (simp_all add: d allChosen_def)
  obtain q' u' e' where b: "backfillDoc su th pd fe uo docId question u e = (q', u', e')"
    by (cases "backfillDoc su th pd fe uo docId question u e")
  obtain rest u'' e'' where l: "backfillLoop su th pd fe uo col u' e' = (rest, u'', e'')"
    by (cases "backfillLoop su th pd fe uo col u' e'")
  have "isChosen q'" using isChosen_backfillDoc[of su th pd fe uo docId question u e] b c by simp
  moreover have "allChosen rest" using Cons.IH[OF r, of u' e'] l by simp
  ultimately show ?case by (simp add: d b l allChosen_def)
qed

lemma allChosen_backfill:
  assumes "allChosen col"
  shows "allChosen (snd (backfillWeekSummaries k g z ms now pd fe uo col))"
proof -
  have "allChosen (fst (backfillLoop su th pd fe uo col 0 0))" for su th
    by (rule allChosen_backfillLoop[OF assms])
  then show ?thesis
    using assms by (simp add: backfillWeekSummaries_def Let_def case_prod_beta)
qed

lemma allChosen_applyOp: "allChosen col \<Longrightarrow> allChosen (applyOp op col)"
  by (cases op) (simp_all add: allChosen_mark allChosen_unsend allChosen_backfill)

lemma allChosen_runOps: "allChosen col \<Longrightarrow> allChosen (runOps ops col)"
  unfolding runOps_def
  by (induction ops arbitrary: col) (simp_all add: allChosen_applyOp)

text \<open>
  Claim C10. The record that \<open>createRetrievedQuestion\<close> builds, which is the one
  \<open>markQuestionAsSent\<close> inserts, has \<open>isChosen = True\<close>, and in every store reached from
  the empty collection by calls of the three writers, whatever their environment
  answers, every record has \<open>isChosen = True\<close>.
\<close>

theorem isChosen_always_true:
  "isChosen (createRetrievedQuestion nowIso question) = True
   \<and> (\<forall>d\<in>set (runOps ops []). isChosen (snd d) = True)"
proof -
  have "allChosen (runOps ops [])" by (rule allChosen_runOps) (simp add: allChosen_def)
  then show ?thesis by (simp add: allChosen_def list_all_iff createRetrievedQuestion_def)
qed

theorem isChosen_always_true_witness:
  "runOps [MarkQuestionAsSent True [0x32, 0x30, 0x32, 0x36] False None (Some ([0x61], 0))
             exampleQuestion] [] = [([0x61], exampleRecord)]
   \<and> isChosen exampleRecord = True"
proof -
  have r: "runOps [MarkQuestionAsSent True [0x32, 0x30, 0x32, 0x36] False None
             (Some ([0x61], 0)) exampleQuestion] [] = [([0x61], exampleRecord)]"
    by (simp add: runOps_def markQuestionAsSent_def isQuestionAlreadySent_def
          getAISummary_def addDoc_def exampleRecord_def)
  show ?thesis
    using isChosen_always_true [of "[0x32, 0x30, 0x32, 0x36]" exampleQuestion
        "[MarkQuestionAsSent True [0x32, 0x30, 0x32, 0x36] False None (Some ([0x61], 0))
             exampleQuestion]"]
    unfolding r by simp
qed

section \<open>Properties of getWeekRange\<close>













section \<open>Properties of the response parser\<close>

subsection \<open>trim\<close>

lemma trim_ws_Cons: "isWhiteSpace x \<Longrightarrow> trim (x # s) = trim s"
  by (simp add: trim_def)

lemma trim_Nil_iff: "trim s = [] \<longleftrightarrow> (\<forall>c\<in>set s. isWhiteSpace c)"
proof -
  have "trim s = [] \<longleftrightarrow> dropWhile isWhiteSpace (rev (dropWhile isWhiteSpace s)) = []"
    by (simp add: trim_def)
  also have "\<dots> \<longleftrightarrow> (\<forall>c\<in>set (dropWhile isWhiteSpace s). isWhiteSpace c)"
    by (simp add: dropWhile_eq_Nil_conv)
  also have "\<dots> \<longleftrightarrow> dropWhile isWhiteSpace s = []"
  proof
    assume a: "\<forall>c\<in>set (dropWhile isWhiteSpace s). isWhiteSpace c"
    show "dropWhile isWhiteSpace s = []"
    proof (cases "dropWhile isWhiteSpace s")
      case Nil then show ?thesis .
    next
      case (Cons y ys)
      then have "\<not> isWhiteSpace y" by (metis hd_dropWhile list.distinct(1) list.sel(1))
      moreover have "y \<in> set (dropWhile isWhiteSpace s)" using Cons by simp
      ultimately show ?thesis using a by blast
    qed
  qed (auto dest: set_dropWhileD)
  also have "\<dots> \<longleftrightarrow> (\<forall>c\<in>set s. isWhiteSpace c)"
    by (simp add: dropWhile_eq_Nil_conv)
  finally show ?thesis .
qed

subsection \<open>The pieces of the solution pattern\<close>

lemma prefix_append_drop:
  "prefix (a @ b) s \<longleftrightarrow> prefix a s \<and> prefix b (drop (length a) s)"
  by (metis append_eq_conv_conj prefix_def append.assoc append_take_drop_id prefixI
        same_prefix_prefix take_is_prefix)

lemma uptoLine_prefix: "take (length (uptoLine ls s)) s = uptoLine ls s"
  by (induction s) auto

lemma length_uptoLine: "length (uptoLine ls s) \<le> length s"
  by (induction s) auto

lemma rep_lazy_stop:
  assumes k: "\<And>s'. k s' = (if s' = [] \<or> lineStart ls s' then Some (f s') else None)"
  shows "rep_lazy anyChar 0 s k = Some (f (drop (length (uptoLine ls s)) s))"
proof (induction s)
  case Nil
  show ?case by (simp add: k)
next
  case (Cons x xs)
  show ?case
  proof (cases "lineStart ls (x # xs)")
    case True
    then show ?thesis by (simp add: k)
  next
    case False
    then have "k (x # xs) = None" by (simp add: k)
    then show ?thesis using False Cons.IH by (simp add: anyChar_def)
  qed
qed

lemma rep_greedy_ws:
  assumes "k (dropWhile isWhiteSpace s) \<noteq> None"
  shows "rep_greedy isWhiteSpace 0 s k = k (dropWhile isWhiteSpace s)"
  using assms
proof (induction s)
  case Nil
  then show ?case by simp
next
  case (Cons x xs)
  show ?case
  proof (cases "isWhiteSpace x")
    case True
    with Cons.prems have "k (dropWhile isWhiteSpace xs) \<noteq> None" by simp
    then have "rep_greedy isWhiteSpace 0 xs k = k (dropWhile isWhiteSpace xs)"
      and "\<exists>r. k (dropWhile isWhiteSpace xs) = Some r"
      using Cons.IH by auto
    then show ?thesis using True by auto
  next
    case False
    then show ?thesis by simp
  qed
qed

lemma lookahead_two_words:
  "rmatch (Lookahead (Alt (Seq (Lit [n]) (Seq (Alt (Lit a) (Lit b)) (Lit e))) Eof)) s c
       (\<lambda>s' c'. Some c')
   = (if s = [] \<or> prefix (n # a @ e) s \<or> prefix (n # b @ e) s then Some c else None)"
proof (cases s)
  case Nil
  then show ?thesis by simp
next
  case (Cons x xs)
  show ?thesis unfolding Cons by (simp add: prefix_append_drop)
qed

lemma lookahead_utils:
  "rmatch (Lookahead (Alt (Seq (Lit [0x0A]) (Seq (Alt (Lit timeWord) (Lit spaceWord)) (Lit [0x3A])))
       Eof)) s c (\<lambda>s' c'. Some c')
   = (if s = [] \<or> lineStart [timeLabel, spaceLabel] s then Some c else None)"
  unfolding lookahead_two_words by (simp add: lineStart_def timeLabel_def spaceLabel_def)

text \<open>The lazy group followed by a look-ahead that stops at the lines of \<open>ls\<close> or at the
  end of the text.\<close>

lemma group_lazy_stop:
  assumes la: "\<And>s c. rmatch la s c (\<lambda>s' c'. Some c')
                 = (if s = [] \<or> lineStart ls s then Some c else None)"
  shows "rmatch (Seq (Group (Rep anyChar 1 False)) la) (x # xs) c (\<lambda>s' c'. Some c')
         = Some (Some (x # uptoLine ls xs))"
proof -
  let ?n = "length (uptoLine ls xs)"
  let ?f = "\<lambda>s'. Some (take (length (x # xs) - length s') (x # xs))"
  have k: "rmatch la s' (Some (take (length (x # xs) - length s') (x # xs))) (\<lambda>s' c'. Some c')
        = (if s' = [] \<or> lineStart ls s' then Some (?f s') else None)" for s'
    by (simp add: la)
  have "rmatch (Seq (Group (Rep anyChar 1 False)) la) (x # xs) c (\<lambda>s' c'. Some c')
      = rep_lazy anyChar 0 xs
          (\<lambda>s'. rmatch la s' (Some (take (length (x # xs) - length s') (x # xs)))
                  (\<lambda>s' c'. Some c'))"
    by (simp add: anyChar_def)
  also have "\<dots> = Some (?f (drop ?n xs))"
    by (rule rep_lazy_stop[where f = ?f and ls = ls, OF k])
  also have "?f (drop ?n xs) = Some (x # uptoLine ls xs)"
  proof -
    have "length (x # xs) - length (drop ?n xs) = Suc ?n"
      using length_uptoLine[of ls xs] by simp
    then show ?thesis by (simp add: uptoLine_prefix)
  qed
  finally show ?thesis .
qed

lemma solution_pattern_at_label:
  assumes la: "\<And>s c. rmatch la s c (\<lambda>s' c'. Some c')
                 = (if s = [] \<or> lineStart ls s then Some c else None)"
    and t: "dropWhile isWhiteSpace rest = x # xs"
  shows "rmatch (Seq (Lit solutionLabel) (Seq (Rep isWhiteSpace 0 True)
            (Seq (Group (Rep anyChar 1 False)) la))) (solutionLabel @ rest) None
            (\<lambda>s' c'. Some c')
         = Some (Some (x # uptoLine ls xs))"
proof -
  let ?k = "\<lambda>s'. rmatch (Seq (Group (Rep anyChar 1 False)) la) s' None (\<lambda>s' c'. Some c')"
  have g: "?k (dropWhile isWhiteSpace rest) = Some (Some (x # uptoLine ls xs))"
    unfolding t by (rule group_lazy_stop[OF la])
  then have "rep_greedy isWhiteSpace 0 rest ?k = Some (Some (x # uptoLine ls xs))"
    using rep_greedy_ws[of ?k rest] by simp
  then show ?thesis by simp
qed

lemma js_match_first_label:
  assumes "afterLabel l content = Some rest"
    and "rmatch (Seq (Lit l) r) (l @ rest) None (\<lambda>s' c'. Some c') = Some c"
  shows "js_match (Seq (Lit l) r) content = Some c"
  using assms
proof (induction content)
  case Nil
  then show ?case by (simp split: if_splits)
next
  case (Cons x xs)
  show ?case
  proof (cases "prefix l (x # xs)")
    case True
    then have "rest = drop (length l) (x # xs)" using Cons.prems(1) by simp
    then have "x # xs = l @ rest" using True by (metis append_eq_conv_conj prefix_def)
    then have "rmatch (Seq (Lit l) r) (x # xs) None (\<lambda>s' c'. Some c') = Some c"
      using Cons.prems(2) by (simp only:)
    then show ?thesis by (simp only: js_match.simps option.case)
  next
    case False
    then have "rmatch (Seq (Lit l) r) (x # xs) None (\<lambda>s' c'. Some c') = None" by simp
    moreover have "afterLabel l xs = Some rest" using False Cons.prems(1) by simp
    ultimately show ?thesis using Cons.IH Cons.prems(2)
      by (simp only: js_match.simps option.case)
  qed
qed

lemma js_match_no_label:
  assumes "\<not> sublist l content"
  shows "js_match (Seq (Lit l) r) content = None"
  using assms
proof (induction content)
  case Nil
  then show ?case by (auto simp: prefix_def)
next
  case (Cons x xs)
  have "\<not> prefix l (x # xs)" using Cons.prems by (meson prefix_imp_sublist)
  moreover have "\<not> sublist l xs" using Cons.prems by (meson sublist_Cons_right)
  ultimately show ?case using Cons.IH by simp
qed

text \<open>When the trimmed segment is not empty, it starts after the white space that follows
  the label, and no stop line begins inside that white space.\<close>

lemma segment_nonempty:
  assumes "trim (uptoLine ls rest) \<noteq> []"
  shows "\<exists>x xs. dropWhile isWhiteSpace rest = x # xs
           \<and> trim (x # uptoLine ls xs) = trim (uptoLine ls rest)"
  using assms
proof (induction rest)
  case Nil
  then show ?case by (simp add: trim_def)
next
  case (Cons y ys)
  have ns: "\<not> lineStart ls (y # ys)" using Cons.prems by (auto simp: trim_def)
  show ?case
  proof (cases "isWhiteSpace y")
    case True
    then have "trim (uptoLine ls ys) \<noteq> []" using Cons.prems ns by (simp add: trim_ws_Cons)
    then show ?thesis using Cons.IH True ns by (simp add: trim_ws_Cons)
  next
    case False
    then show ?thesis using ns by simp
  qed
qed

lemma solution_of_match:
  assumes lbl: "afterLabel solutionLabel content = Some rest"
    and seg: "trim (uptoLine ls rest) \<noteq> []"
    and la: "\<And>s c. rmatch la s c (\<lambda>s' c'. Some c')
                 = (if s = [] \<or> lineStart ls s then Some c else None)"
  shows "js_or (map_option trim (group1 (js_match (Seq (Lit solutionLabel)
            (Seq (Rep isWhiteSpace 0 True) (Seq (Group (Rep anyChar 1 False)) la))) content)))
          (trim content) = trim (uptoLine ls rest)"
proof -
  from segment_nonempty[OF seg] obtain x xs where
    t: "dropWhile isWhiteSpace rest = x # xs"
    and e: "trim (x # uptoLine ls xs) = trim (uptoLine ls rest)" by blast
  have "js_match (Seq (Lit solutionLabel)
            (Seq (Rep isWhiteSpace 0 True) (Seq (Group (Rep anyChar 1 False)) la))) content
        = Some (Some (x # uptoLine ls xs))"
    by (rule js_match_first_label[OF lbl solution_pattern_at_label[OF la t]])
  then show ?thesis using seg e by (simp add: group1_def js_or_def)
qed

subsection \<open>The solution field\<close>

lemma solutionLabel_not_ws: "\<not> isWhiteSpace 0x05E4"
  by (simp add: isWhiteSpace_def)

lemma trim_with_label:
  assumes "sublist solutionLabel content"
  shows "trim content \<noteq> []"
proof -
  from assms obtain ps ss where "content = ps @ solutionLabel @ ss" by (auto simp: sublist_def)
  then have "0x05E4 \<in> set content" by (simp add: solutionLabel_def)
  then show ?thesis using solutionLabel_not_ws by (auto simp: trim_Nil_iff)
qed

lemma js_or_nonempty: "d \<noteq> [] \<Longrightarrow> js_or v d \<noteq> []"
  by (simp add: js_or_def split: option.split)

lemma afterLabel_sublist: "afterLabel l s = Some r \<Longrightarrow> sublist l s"
proof (induction s)
  case Nil
  then show ?case by (simp split: if_splits)
next
  case (Cons x xs)
  show ?case
  proof (cases "prefix l (x # xs)")
    case True
    then show ?thesis by (rule prefix_imp_sublist)
  next
    case False
    then have "sublist l xs" using Cons by simp
    then show ?thesis by (meson sublist_Cons_right)
  qed
qed

text \<open>
  Claim C3, as stated, fails: on the text that is the solution label alone the segment
  is empty, and both parsers fall back to the whole trimmed text, the label.
\<close>

theorem parse_solution_segment_counterexample:
  "specSolution solutionLabel = Some []
   \<and> solution (parseAIResponse solutionLabel) = solutionLabel
   \<and> solution (getQuestionSummary_parse solutionLabel) = solutionLabel
   \<and> solutionLabel \<noteq> []"
  by (simp add: specSolution_def parseAIResponse_def getQuestionSummary_parse_def
        solutionLabel_def solutionRegex_def solutionRegexInline_def trim_def
        isWhiteSpace_def group1_def js_or_def)

text \<open>
  Claim C3, amended. For every text that holds the solution label, let the segment be
  the text after the first solution label up to, and not including, the next line that
  begins with the time label or the space label, or up to the end of the text. When the
  trimmed segment is not empty, the solution field of \<open>parseAIResponse\<close> is the trimmed
  segment; when it is empty, the solution field is not: the parser falls back to other
  text.
\<close>

theorem parse_solution_segment:
  assumes lbl: "afterLabel solutionLabel content = Some rest"
  shows "(trim (uptoLine [timeLabel, spaceLabel] rest) \<noteq> [] \<longrightarrow>
            solution (parseAIResponse content) = trim (uptoLine [timeLabel, spaceLabel] rest))
       \<and> (trim (uptoLine [timeLabel, spaceLabel] rest) = [] \<longrightarrow>
            solution (parseAIResponse content) \<noteq> [])"
proof (intro conjI impI)
  assume seg: "trim (uptoLine [timeLabel, spaceLabel] rest) \<noteq> []"
  show "solution (parseAIResponse content) = trim (uptoLine [timeLabel, spaceLabel] rest)"
    unfolding parseAIResponse_def solutionRegex_def Let_def
    using solution_of_match[OF lbl seg lookahead_utils] by simp
next
  have "sublist solutionLabel content" using lbl by (rule afterLabel_sublist)
  then show "solution (parseAIResponse content) \<noteq> []"
    by (simp add: parseAIResponse_def Let_def js_or_nonempty trim_with_label)
qed

theorem parse_solution_segment_witness:
  "afterLabel solutionLabel exampleResponse
     = Some ([0x20, 0x61, 0x0A] @ timeLabel @ [0x20, 0x4F, 0x28, 0x6E, 0x29, 0x0A]
         @ spaceLabel @ [0x20, 0x4F, 0x28, 0x31, 0x29])
   \<and> trim (uptoLine [timeLabel, spaceLabel]
         ([0x20, 0x61, 0x0A] @ timeLabel @ [0x20, 0x4F, 0x28, 0x6E, 0x29, 0x0A]
           @ spaceLabel @ [0x20, 0x4F, 0x28, 0x31, 0x29])) = [0x61]
   \<and> solution (parseAIResponse exampleResponse) = [0x61]
   \<and> afterLabel solutionLabel (solutionLabel @ [0x20]) = Some [0x20]
   \<and> trim (uptoLine [timeLabel, spaceLabel] [0x20]) = []
   \<and> solution (parseAIResponse (solutionLabel @ [0x20])) \<noteq> []"
proof -
  let ?rest = "[0x20, 0x61, 0x0A] @ timeLabel @ [0x20, 0x4F, 0x28, 0x6E, 0x29, 0x0A]
         @ spaceLabel @ [0x20, 0x4F, 0x28, 0x31, 0x29]"
  have h1: "afterLabel solutionLabel exampleResponse = Some ?rest"
    by (simp add: exampleResponse_def solutionLabel_def)
  have v1: "trim (uptoLine [timeLabel, spaceLabel] ?rest) = [0x61]"
    by (simp add: timeLabel_def spaceLabel_def timeWord_def spaceWord_def lineStart_def
          trim_def isWhiteSpace_def)
  have h2: "afterLabel solutionLabel (solutionLabel @ [0x20]) = Some [0x20]"
    by (simp add: solutionLabel_def)
  have v2: "trim (uptoLine [timeLabel, spaceLabel] [0x20]) = []"
    by (simp add: timeLabel_def spaceLabel_def timeWord_def spaceWord_def lineStart_def
          trim_def isWhiteSpace_def)
  show ?thesis
    using parse_solution_segment [OF h1] parse_solution_segment [OF h2] h1 h2 v1 v2
    by (simp only: simp_thms list.distinct)
qed

text \<open>
  On a response without a time line the two parsers differ. The look-ahead of the inline
  pattern names the time label only, and the solution runs over the line of the space
  label; \<open>parseAIResponse\<close> stops before that line, as its test of a missing time
  complexity expects.
\<close>

lemma getQuestionSummary_parse_without_time_line:
  "solution (parseAIResponse exampleResponseNoTime) = [0x61]
   \<and> solution (getQuestionSummary_parse exampleResponseNoTime)
       = [0x61, 0x0A] @ spaceLabel @ [0x20, 0x4F, 0x28, 0x31, 0x29]"
  by (simp add: parseAIResponse_def getQuestionSummary_parse_def
        exampleResponseNoTime_def solutionLabel_def spaceLabel_def timeWord_def
        spaceWord_def solutionRegex_def solutionRegexInline_def trim_def
        isWhiteSpace_def anyChar_def group1_def js_or_def)

text \<open>
  Claim C7. \<open>parseAIResponse\<close> is a total function (every function of the matcher is
  defined by terminating recursion on the pattern or the text). For every text, if it
  holds the solution label the solution field is not empty, and if it does not the
  solution field is the trimmed text.
\<close>

theorem parseAIResponse_solution_total:
  "(sublist solutionLabel content \<longrightarrow> solution (parseAIResponse content) \<noteq> [])
   \<and> (\<not> sublist solutionLabel content \<longrightarrow> solution (parseAIResponse content) = trim content)"
proof (intro conjI impI)
  assume "sublist solutionLabel content"
  then show "solution (parseAIResponse content) \<noteq> []"
    by (simp add: parseAIResponse_def Let_def js_or_nonempty trim_with_label)
next
  assume "\<not> sublist solutionLabel content"
  then have "js_match solutionRegex content = None"
    unfolding solutionRegex_def by (rule js_match_no_label)
  then show "solution (parseAIResponse content) = trim content"
    by (simp add: parseAIResponse_def Let_def group1_def js_or_def)
qed

theorem parseAIResponse_solution_total_witness:
  "sublist solutionLabel solutionLabel
   \<and> solution (parseAIResponse solutionLabel) \<noteq> []
   \<and> \<not> sublist solutionLabel [0x61, 0x20]
   \<and> solution (parseAIResponse [0x61, 0x20]) = [0x61]"
proof -
  have h1: "sublist solutionLabel solutionLabel" by simp
  have h2: "\<not> sublist solutionLabel [0x61, 0x20]"
    by (simp add: solutionLabel_def sublist_code)
  have t: "trim [0x61, 0x20] = [0x61]" by (simp add: trim_def isWhiteSpace_def)
  show ?thesis
    using parseAIResponse_solution_total [of solutionLabel] parseAIResponse_solution_total [of "[0x61, 0x20]"] h1 h2 t by (simp only: simp_thms)
qed

end
